theory Spec2Isabelle
  imports Main
begin

section \<open>The display front end of the emulator (speculos/mcu/screen.py)\<close>

text \<open>
  The module holds three classes: \<open>PaintWidget\<close> (the off-screen pixmap and its
  repaint), \<open>App\<close> (the main window, which translates pointer events) and
  \<open>Screen\<close> (the socket notifiers and the key events). Each class is a record,
  each method a function from the state before the call to the result and the state
  after it. Calls into collaborators that are not part of the module (the
  secure-element link \<open>seph\<close>, the VNC mirror, the Qt widgets) are recorded in the
  state, in call order, so that a theorem can say what was sent and how often.
\<close>

subsection \<open>Exceptions\<close>

text \<open>
  Every exception the module can raise or let through is a value. \<open>OtherError\<close>
  stands for any exception of a device handler that is not \<open>ReadError\<close>.
\<close>

datatype exn =
    ReadError
  | AssertionError
  | KeyError
  | AttributeError
  | ZeroDivisionError
  | OtherError string

subsection \<open>Constants\<close>

definition BUTTON_LEFT :: int where
  "BUTTON_LEFT = 1"

definition BUTTON_RIGHT :: int where
  "BUTTON_RIGHT = 2"

text \<open>The values of the \<open>Qt.Key\<close> enumeration the module names.\<close>

definition Key_Left :: int where
  "Key_Left = 0x01000012"

definition Key_Right :: int where
  "Key_Right = 0x01000014"

definition Key_Down :: int where
  "Key_Down = 0x01000015"

definition Key_Q :: int where
  "Key_Q = 0x51"

subsection \<open>The secure-element link\<close>

text \<open>
  \<open>seph.handle_button(code, pressed)\<close> and \<open>seph.handle_finger(x, y, pressed)\<close>
  belong to the server; the link is the list of the commands it was sent.
\<close>

datatype seph_cmd =
    Button int bool
  | Finger int int bool

definition handle_button :: "int \<Rightarrow> bool \<Rightarrow> seph_cmd list \<Rightarrow> seph_cmd list" where
  "handle_button code pressed link = link @ [Button code pressed]"

definition handle_finger :: "int \<Rightarrow> int \<Rightarrow> bool \<Rightarrow> seph_cmd list \<Rightarrow> seph_cmd list" where
  "handle_finger x y pressed link = link @ [Finger x y pressed]"

subsection \<open>The main window\<close>

text \<open>
  \<open>App\<close>: the fields the event handlers read and write. \<open>mouse_offset\<close> is not
  set by \<open>__init__\<close>; it exists only once \<open>mousePressEvent\<close> has run, hence the
  option. \<open>override_cursors\<close> is the depth of Qt's stack of override cursors and
  \<open>close_calls\<close> counts the calls of \<open>QMainWindow.close()\<close>.
\<close>

record App =
  seph :: "seph_cmd list"
  width :: int
  height :: int
  pixel_size_app :: int
  box_position_x :: int
  box_position_y :: int
  mouse_offset :: "(int \<times> int) option"
  override_cursors :: nat
  close_calls :: nat

definition close_app :: "App \<Rightarrow> App" where
  "close_app a = a\<lparr>close_calls := Suc (close_calls a)\<rparr>"

subsection \<open>Pointer events\<close>

text \<open>
  \<open>_get_x_y\<close> reads \<open>self.mouse_offset\<close>: an \<open>AttributeError\<close> when no press
  has stored it yet, a \<open>ZeroDivisionError\<close> when the pixel size is 0. Python's
  \<open>//\<close> on integers and \<open>div\<close> on \<open>int\<close> both round towards minus infinity.
\<close>

definition get_x_y :: "App \<Rightarrow> exn + int \<times> int" where
  "get_x_y a =
     (case mouse_offset a of
        None \<Rightarrow> Inl AttributeError
      | Some (mx, my) \<Rightarrow>
          if pixel_size_app a = 0 then Inl ZeroDivisionError
          else Inr (mx div pixel_size_app a - (box_position_x a + 1),
                    my div pixel_size_app a - (box_position_y a + 1)))"

text \<open>
  The second argument of both handlers is \<open>event.pos()\<close>, the position of the
  event relative to the window. \<open>mouseReleaseEvent\<close> never reads its event.
\<close>

definition mousePressEvent :: "App \<Rightarrow> int \<times> int \<Rightarrow> exn option \<times> App" where
  "mousePressEvent a pos =
     (let a1 = a\<lparr>mouse_offset := Some pos\<rparr> in
      case get_x_y a1 of
        Inl e \<Rightarrow> (Some e, a1)
      | Inr (x, y) \<Rightarrow>
          let a2 = (if x \<ge> 0 \<and> x < width a1 \<and> y \<ge> 0 \<and> y < height a1
                    then a1\<lparr>seph := handle_finger x y True (seph a1)\<rparr> else a1)
          in (None, a2\<lparr>override_cursors := Suc (override_cursors a2)\<rparr>))"

definition mouseReleaseEvent :: "App \<Rightarrow> int \<times> int \<Rightarrow> exn option \<times> App" where
  "mouseReleaseEvent a pos =
     (case get_x_y a of
        Inl e \<Rightarrow> (Some e, a)
      | Inr (x, y) \<Rightarrow>
          let a2 = (if x \<ge> 0 \<and> x < width a \<and> y \<ge> 0 \<and> y < height a
                    then a\<lparr>seph := handle_finger x y False (seph a)\<rparr> else a)
          in (None, a2\<lparr>override_cursors := override_cursors a2 - 1\<rparr>))"

subsection \<open>The screen: socket notifiers\<close>

text \<open>
  An \<open>IODevice\<close> (\<open>klass\<close> in the source) has a \<open>fileno\<close> and a method
  \<open>can_read(s, screen)\<close>. The devices are implemented elsewhere, so what
  \<open>can_read\<close> does is a parameter of the model (type \<open>can_read\<close> below): given
  the device, the socket and the screen it returns the exception it raised, if any,
  and the screen as it left it.

  A \<open>QSocketNotifier\<close> is a Qt object: it watches \<open>sn_socket\<close>, it is enabled
  when created, and \<open>sn_slots\<close> are the slots connected to its \<open>activated\<close>
  signal. Each slot here is the closure \<open>lambda s: self.klass_can_read(klass, s)\<close>,
  represented by the \<open>klass\<close> it captured. Every notifier is created with the
  window as its parent, so it lives as long as the window does, whether or not the
  dictionary \<open>self.notifiers\<close> still refers to it: the notifiers are kept in a store
  (\<open>socket_notifiers\<close>, the address of an object is its index) and the dictionary
  maps a file descriptor to an address.

  \<open>notifier_calls\<close> are the calls the screen has made on its notifiers and the
  writes to the dictionary \<open>self.notifiers\<close>, in call order: the constructor
  \<open>QSocketNotifier(fileno, Read, app)\<close>, \<open>activated.connect\<close>, \<open>setEnabled\<close>,
  \<open>disconnect\<close>, the assignment \<open>self.notifiers[fd] = n\<close> and
  \<open>self.notifiers.pop(fd)\<close>. A notifier is named by its address.
\<close>

record IODevice =
  fileno :: int
  device :: nat

record QSocketNotifier =
  sn_socket :: int
  sn_enabled :: bool
  sn_slots :: "IODevice list"

text \<open>
  \<open>Screen\<close> keeps a reference to the window (\<open>self.app\<close>) and to the same link
  object as the window (\<open>server.seph\<close>), so its state contains the window's.
\<close>

datatype notifier_call =
    Call_QSocketNotifier nat int
  | Call_connect nat IODevice
  | Call_setEnabled nat bool
  | Call_disconnect nat
  | Call_store int nat
  | Call_pop int

record Screen =
  app :: App
  notifiers :: "int \<rightharpoonup> nat"
  socket_notifiers :: "QSocketNotifier list"
  notifier_calls :: "notifier_call list"

type_synonym can_read = "IODevice \<Rightarrow> int \<Rightarrow> Screen \<Rightarrow> exn option \<times> Screen"

definition app_close :: "Screen \<Rightarrow> Screen" where
  "app_close s = s\<lparr>app := close_app (app s)\<rparr>"

definition seph_handle_button :: "int \<Rightarrow> bool \<Rightarrow> Screen \<Rightarrow> Screen" where
  "seph_handle_button code pressed s =
     s\<lparr>app := (app s)\<lparr>seph := handle_button code pressed (seph (app s))\<rparr>\<rparr>"

definition klass_can_read :: "can_read \<Rightarrow> Screen \<Rightarrow> IODevice \<Rightarrow> int \<Rightarrow> exn option \<times> Screen" where
  "klass_can_read H s klass sock =
     (case H klass sock s of
        (None, s') \<Rightarrow> (None, s')
      | (Some e, s') \<Rightarrow> if e = ReadError then (None, app_close s') else (Some e, s'))"

text \<open>
  \<open>add_notifier\<close> creates and connects the notifier before it asserts that the
  descriptor is new, so a failed assertion leaves the new notifier behind in the
  store, enabled and connected, with no entry in the dictionary.
\<close>

definition add_notifier :: "Screen \<Rightarrow> IODevice \<Rightarrow> exn option \<times> Screen" where
  "add_notifier s klass =
     (let n = \<lparr>sn_socket = fileno klass, sn_enabled = True, sn_slots = []\<rparr>;
          n' = n\<lparr>sn_slots := sn_slots n @ [klass]\<rparr>;
          addr = length (socket_notifiers s);
          s1 = s\<lparr>socket_notifiers := socket_notifiers s @ [n'],
                 notifier_calls := notifier_calls s @
                   [Call_QSocketNotifier addr (fileno klass), Call_connect addr klass]\<rparr>
      in if fileno klass \<in> dom (notifiers s1) then (Some AssertionError, s1)
         else (None, s1\<lparr>notifiers := (notifiers s1)(fileno klass \<mapsto> addr),
                         notifier_calls := notifier_calls s1 @ [Call_store (fileno klass) addr]\<rparr>))"

definition setEnabled :: "nat \<Rightarrow> bool \<Rightarrow> Screen \<Rightarrow> Screen" where
  "setEnabled addr enabled s =
     s\<lparr>socket_notifiers :=
         (socket_notifiers s)[addr := (socket_notifiers s ! addr)\<lparr>sn_enabled := enabled\<rparr>],
       notifier_calls := notifier_calls s @ [Call_setEnabled addr enabled]\<rparr>"

definition disconnect :: "nat \<Rightarrow> Screen \<Rightarrow> Screen" where
  "disconnect addr s =
     s\<lparr>socket_notifiers :=
         (socket_notifiers s)[addr := (socket_notifiers s ! addr)\<lparr>sn_slots := []\<rparr>],
       notifier_calls := notifier_calls s @ [Call_disconnect addr]\<rparr>"

text \<open>\<open>self.notifiers.pop(fd)\<close> for a key that is present.\<close>

definition pop_notifier :: "int \<Rightarrow> Screen \<Rightarrow> Screen" where
  "pop_notifier fd s =
     s\<lparr>notifiers := (notifiers s)(fd := None),
       notifier_calls := notifier_calls s @ [Call_pop fd]\<rparr>"

definition enable_notifier :: "Screen \<Rightarrow> int \<Rightarrow> bool \<Rightarrow> exn option \<times> Screen" where
  "enable_notifier s fd enabled =
     (case notifiers s fd of
        None \<Rightarrow> (Some KeyError, s)
      | Some addr \<Rightarrow> (None, setEnabled addr enabled s))"

definition remove_notifier :: "Screen \<Rightarrow> int \<Rightarrow> exn option \<times> Screen" where
  "remove_notifier s fd =
     (case enable_notifier s fd False of
        (Some e, s1) \<Rightarrow> (Some e, s1)
      | (None, s1) \<Rightarrow>
          (case notifiers s1 fd of
             None \<Rightarrow> (Some KeyError, s1)
           | Some addr \<Rightarrow>
               (None, disconnect addr (pop_notifier fd s1))))"

text \<open>
  What Qt does when a socket becomes readable: every notifier on that socket that is
  enabled emits \<open>activated(socket)\<close>, which calls its connected slots in the order
  of connection. An exception that leaves a slot ends the delivery. The notifiers
  are visited in order of creation; each is looked up in the store as the slots
  before it have left it, since a handler may enable, disable or remove notifiers.
\<close>

fun run_slots :: "can_read \<Rightarrow> Screen \<Rightarrow> IODevice list \<Rightarrow> int \<Rightarrow> exn option \<times> Screen" where
  "run_slots H s [] sock = (None, s)"
| "run_slots H s (klass # ks) sock =
     (case klass_can_read H s klass sock of
        (Some e, s') \<Rightarrow> (Some e, s')
      | (None, s') \<Rightarrow> run_slots H s' ks sock)"

definition activated :: "can_read \<Rightarrow> Screen \<Rightarrow> nat \<Rightarrow> int \<Rightarrow> exn option \<times> Screen" where
  "activated H s addr sock =
     (if addr < length (socket_notifiers s)
         \<and> sn_socket (socket_notifiers s ! addr) = sock
         \<and> sn_enabled (socket_notifiers s ! addr)
      then run_slots H s (sn_slots (socket_notifiers s ! addr)) sock
      else (None, s))"

fun deliver :: "can_read \<Rightarrow> Screen \<Rightarrow> nat list \<Rightarrow> int \<Rightarrow> exn option \<times> Screen" where
  "deliver H s [] sock = (None, s)"
| "deliver H s (addr # addrs) sock =
     (case activated H s addr sock of
        (Some e, s') \<Rightarrow> (Some e, s')
      | (None, s') \<Rightarrow> deliver H s' addrs sock)"

definition socket_ready :: "can_read \<Rightarrow> Screen \<Rightarrow> int \<Rightarrow> exn option \<times> Screen" where
  "socket_ready H s sock = deliver H s [0..<length (socket_notifiers s)] sock"

text \<open>
  The states the module can reach without a failed assertion: every dictionary
  entry refers to a notifier of the store that watches the entry's descriptor, and
  every enabled notifier is the one its descriptor is registered with.
\<close>

definition wf :: "Screen \<Rightarrow> bool" where
  "wf s \<longleftrightarrow>
     (\<forall>fd addr. notifiers s fd = Some addr \<longrightarrow>
        addr < length (socket_notifiers s) \<and> sn_socket (socket_notifiers s ! addr) = fd)
     \<and> (\<forall>addr < length (socket_notifiers s).
          sn_enabled (socket_notifiers s ! addr) \<longrightarrow>
          notifiers s (sn_socket (socket_notifiers s ! addr)) = Some addr)"

subsection \<open>Key events\<close>

definition buttons :: "int \<rightharpoonup> int" where
  "buttons = [Key_Left \<mapsto> BUTTON_LEFT, Key_Right \<mapsto> BUTTON_RIGHT]"

definition key_event :: "Screen \<Rightarrow> int \<Rightarrow> bool \<Rightarrow> exn option \<times> Screen" where
  "key_event s key pressed =
     (if key \<in> set [Key_Left, Key_Right] then
        (case buttons key of
           None \<Rightarrow> (Some KeyError, s)
         | Some code \<Rightarrow> (None, seph_handle_button code pressed s))
      else if key = Key_Down then
        (None, seph_handle_button BUTTON_RIGHT pressed (seph_handle_button BUTTON_LEFT pressed s))
      else if key = Key_Q \<and> \<not> pressed then
        (None, app_close s)
      else (None, s))"

definition keyPressEvent :: "Screen \<Rightarrow> int \<Rightarrow> exn option \<times> Screen" where
  "keyPressEvent s key = key_event s key True"

definition keyReleaseEvent :: "Screen \<Rightarrow> int \<Rightarrow> exn option \<times> Screen" where
  "keyReleaseEvent s key = key_event s key False"

subsection \<open>Pixmaps and painters\<close>

text \<open>
  The part of Qt's painting the widget relies on. A \<open>QPixmap\<close> is a width, a height
  and a colour for each coordinate; only the coordinates inside the pixmap mean
  anything, and no operation below writes outside them. \<open>QColor.fromRgb(c)\<close> is
  the constructor \<open>FromRgb\<close>.
\<close>

datatype QColor = FromRgb int

definition Qt_white :: QColor where
  "Qt_white = FromRgb 0xFFFFFF"

record QPixmap =
  pm_width :: int
  pm_height :: int
  pm_pixel :: "int \<times> int \<Rightarrow> QColor"

definition inside :: "QPixmap \<Rightarrow> int \<times> int \<Rightarrow> bool" where
  "inside pm p \<longleftrightarrow> 0 \<le> fst p \<and> fst p < pm_width pm \<and> 0 \<le> snd p \<and> snd p < pm_height pm"

text \<open>\<open>QPixmap()\<close>, the null pixmap, and \<open>QPixmap(size)\<close>, whose content is not
  initialised before it is filled.\<close>

definition QPixmap_null :: QPixmap where
  "QPixmap_null = \<lparr>pm_width = 0, pm_height = 0, pm_pixel = (\<lambda>p. FromRgb 0)\<rparr>"

definition QPixmap_new :: "int \<times> int \<Rightarrow> QPixmap" where
  "QPixmap_new sz = \<lparr>pm_width = fst sz, pm_height = snd sz, pm_pixel = (\<lambda>p. FromRgb 0)\<rparr>"

definition fill :: "QColor \<Rightarrow> QPixmap \<Rightarrow> QPixmap" where
  "fill c pm = pm\<lparr>pm_pixel := (\<lambda>p. c)\<rparr>"

text \<open>
  \<open>size / factor\<close> on a \<open>QSize\<close> divides both sides and rounds to the nearest
  integer; for a side \<open>a \<ge> 0\<close> and a factor \<open>c > 0\<close> that is
  \<open>(2 * a + c) div (2 * c)\<close>. A factor of 0 or less gives no usable size in Qt
  and a pixmap with no pixel here.
\<close>

definition qsize_div :: "int \<times> int \<Rightarrow> int \<Rightarrow> int \<times> int" where
  "qsize_div sz c =
     (if c \<le> 0 then (0, 0)
      else ((2 * fst sz + c) div (2 * c), (2 * snd sz + c) div (2 * c)))"

text \<open>
  \<open>pixmap.scaled(w, h)\<close>: a new pixmap of the given size, each of its pixels
  taken from the pixel of the source it covers; the null pixmap when a side is not
  positive.
\<close>

definition scaled :: "QPixmap \<Rightarrow> int \<Rightarrow> int \<Rightarrow> QPixmap" where
  "scaled pm w h =
     (if w \<le> 0 \<or> h \<le> 0 then QPixmap_null
      else \<lparr>pm_width = w, pm_height = h,
            pm_pixel = (\<lambda>p. pm_pixel pm (fst p * pm_width pm div w, snd p * pm_height pm div h))\<rparr>)"

text \<open>
  A \<open>QPainter\<close> on a pixmap: \<open>paint_device\<close> is the pixmap as painted so far,
  \<open>pen\<close> the current pen, and \<open>points\<close> the \<open>drawPoint\<close> calls the painter has
  received, each with the pen it was drawn with. Painting is clipped to the device.
\<close>

record QPainter =
  paint_device :: QPixmap
  pen :: QColor
  points :: "(int \<times> int \<times> QColor) list"

definition QPainter_on :: "QPixmap \<Rightarrow> QPainter" where
  "QPainter_on pm = \<lparr>paint_device = pm, pen = FromRgb 0, points = []\<rparr>"

definition setPen :: "QColor \<Rightarrow> QPainter \<Rightarrow> QPainter" where
  "setPen c qp = qp\<lparr>pen := c\<rparr>"

definition drawPoint :: "int \<Rightarrow> int \<Rightarrow> QPainter \<Rightarrow> QPainter" where
  "drawPoint x y qp =
     qp\<lparr>paint_device :=
          (if inside (paint_device qp) (x, y)
           then (paint_device qp)\<lparr>pm_pixel := (pm_pixel (paint_device qp))((x, y) := pen qp)\<rparr>
           else paint_device qp),
        points := points qp @ [(x, y, pen qp)]\<rparr>"

definition drawPixmap :: "int \<Rightarrow> int \<Rightarrow> QPixmap \<Rightarrow> QPainter \<Rightarrow> QPainter" where
  "drawPixmap x0 y0 src qp =
     qp\<lparr>paint_device :=
          (paint_device qp)\<lparr>pm_pixel :=
             (\<lambda>p. if inside (paint_device qp) p \<and> inside src (fst p - x0, snd p - y0)
                  then pm_pixel src (fst p - x0, snd p - y0)
                  else pm_pixel (paint_device qp) p)\<rparr>\<rparr>"

subsection \<open>The frame buffer\<close>

text \<open>
  Modelled from the spec: the class \<open>FrameBuffer\<close> of \<open>speculos/mcu/display.py\<close>,
  which is not among the sources. The module reads, iterates and resets its
  dictionary \<open>pixels\<close> (the dirty set); a Python dictionary is a list of pairs in
  insertion order whose keys are distinct (\<open>dict_ok\<close>). \<open>screenshot_pixels\<close> is
  the working snapshot of the spec.
\<close>

type_synonym pixel_dict = "((int \<times> int) \<times> int) list"

definition dict_ok :: "pixel_dict \<Rightarrow> bool" where
  "dict_ok d \<longleftrightarrow> distinct (map fst d)"

record FrameBuffer =
  pixels :: pixel_dict
  screenshot_pixels :: "int \<times> int \<rightharpoonup> int"

text \<open>
  Modelled from the spec: \<open>FrameBuffer.screenshot_update_pixels\<close>, which the
  sources call and do not contain. The spec: the working snapshot accumulates
  incremental commits; a flush applies every \<open>(x, y, color)\<close> of the dirty set to
  it. The dirty set itself is left as it is.
\<close>

definition screenshot_update_pixels :: "FrameBuffer \<Rightarrow> FrameBuffer" where
  "screenshot_update_pixels f =
     f\<lparr>screenshot_pixels := fold (\<lambda>(k, c) m. m(k \<mapsto> c)) (pixels f) (screenshot_pixels f)\<rparr>"

subsection \<open>The paint widget\<close>

text \<open>
  \<open>vnc\<close> is the mirror, \<open>None\<close> when there is none; the mirror is the list of the
  dictionaries its \<open>redraw\<close> was called with. \<open>widget_size\<close> is \<open>self.size()\<close>.
  \<open>qt_calls\<close> are the calls the widget has made to Qt for its own surface:
  \<open>scaled\<close> on its pixmap, \<open>drawPixmap\<close> with a painter on the widget, and the
  two forms of \<open>QWidget.update\<close>.
\<close>

datatype qt_call =
    Call_scaled int int
  | Call_drawPixmap int int QPixmap
  | Call_update_rect int int int int
  | Call_update

record PaintWidget =
  fb :: FrameBuffer
  pixel_size :: int
  mPixmap :: QPixmap
  vnc :: "pixel_dict list option"
  widget_size :: "int \<times> int"
  qt_calls :: "qt_call list"

definition redraw :: "PaintWidget \<Rightarrow> QPainter \<Rightarrow> QPainter \<times> PaintWidget" where
  "redraw s qp =
     (let qp' = fold (\<lambda>((x, y), color) p. drawPoint x y (setPen (FromRgb color) p))
                     (pixels (fb s)) qp;
          s1 = (case vnc s of
                  None \<Rightarrow> s
                | Some mirror \<Rightarrow> s\<lparr>vnc := Some (mirror @ [pixels (fb s)])\<rparr>);
          s2 = s1\<lparr>fb := screenshot_update_pixels (fb s1)\<rparr>
      in (qp', s2))"

definition paintEvent :: "PaintWidget \<Rightarrow> PaintWidget" where
  "paintEvent s =
     (let s1 = (if pixels (fb s) \<noteq> [] then
                  (let pixmap = fill Qt_white
                                  (QPixmap_new (qsize_div (widget_size s) (pixel_size s)));
                       painter = drawPixmap 0 0 (mPixmap s) (QPainter_on pixmap);
                       (painter', s') = redraw s painter
                   in s'\<lparr>mPixmap := paint_device painter', fb := (fb s')\<lparr>pixels := []\<rparr>\<rparr>)
                else s);
          copied_pixmap = mPixmap s1
      in if pixel_size s1 \<noteq> 1 then
           (let w = pm_width (mPixmap s1) * pixel_size s1;
                h = pm_height (mPixmap s1) * pixel_size s1;
                copied_pixmap = scaled (mPixmap s1) w h
            in s1\<lparr>qt_calls := qt_calls s1 @ [Call_scaled w h, Call_drawPixmap 0 0 copied_pixmap]\<rparr>)
         else s1\<lparr>qt_calls := qt_calls s1 @ [Call_drawPixmap 0 0 copied_pixmap]\<rparr>)"

text \<open>
  \<open>update(x, y, w, h)\<close>: each argument is an integer or \<open>None\<close>. Python's
  \<open>x and y and w and h\<close> is true when none of them is \<open>None\<close> or 0.
\<close>

definition truthy :: "int option \<Rightarrow> bool" where
  "truthy v = (case v of None \<Rightarrow> False | Some n \<Rightarrow> n \<noteq> 0)"

definition update :: "PaintWidget \<Rightarrow> int option \<Rightarrow> int option \<Rightarrow> int option \<Rightarrow> int option
                      \<Rightarrow> bool \<times> PaintWidget" where
  "update s x y w h =
     (let s' = (case (x, y, w, h) of
                  (Some xv, Some yv, Some wv, Some hv) \<Rightarrow>
                    if truthy x \<and> truthy y \<and> truthy w \<and> truthy h
                    then s\<lparr>qt_calls := qt_calls s @ [Call_update_rect xv yv wv hv]\<rparr>
                    else s\<lparr>qt_calls := qt_calls s @ [Call_update]\<rparr>
                | _ \<Rightarrow> s\<lparr>qt_calls := qt_calls s @ [Call_update]\<rparr>)
      in (pixels (fb s) \<noteq> [], s'))"

subsection \<open>States used as examples\<close>

text \<open>The window of the spec's pointer example: scale 2, box offset (3, 3), a
  screen of 128 by 128.\<close>

definition example_app :: App where
  "example_app = \<lparr>seph = [], width = 128, height = 128, pixel_size_app = 2,
                  box_position_x = 3, box_position_y = 3, mouse_offset = None,
                  override_cursors = 0, close_calls = 0\<rparr>"

definition example_screen :: Screen where
  "example_screen = \<lparr>app = example_app, notifiers = Map.empty, socket_notifiers = [],
                     notifier_calls = []\<rparr>"

text \<open>Two devices, the screen with both of them registered, and two handlers:
  one that signals exhaustion and one that fails with another error; both leave the
  screen as it is.\<close>

definition seph_device :: IODevice where
  "seph_device = \<lparr>fileno = 3, device = 0\<rparr>"

definition vnc_device :: IODevice where
  "vnc_device = \<lparr>fileno = 4, device = 1\<rparr>"

definition example_screen2 :: Screen where
  "example_screen2 =
     snd (add_notifier (snd (add_notifier example_screen seph_device)) vnc_device)"

definition exhausted :: can_read where
  "exhausted klass sock s = (Some ReadError, s)"

definition broken :: can_read where
  "broken klass sock s = (Some (OtherError ''connection reset''), s)"

text \<open>A widget of 4 by 4 at scale 2, so a pixmap of 2 by 2, with two pending
  pixels, a mirror that has received nothing yet and no committed image.\<close>

definition example_widget :: PaintWidget where
  "example_widget =
     \<lparr>fb = \<lparr>pixels = [((0, 0), 0xFFFFFF), ((1, 0), 0)], screenshot_pixels = Map.empty\<rparr>,
      pixel_size = 2, mPixmap = QPixmap_null, vnc = Some [], widget_size = (4, 4),
      qt_calls = []\<rparr>"

section \<open>Properties\<close>

lemmas key_defs = Key_Left_def Key_Right_def Key_Down_def Key_Q_def BUTTON_LEFT_def BUTTON_RIGHT_def

subsection \<open>Key events\<close>

text \<open>
  C6. For every key event: the Left key forwards button code 1 and the Right key
  button code 2, each with the event's press or release state; the Down key forwards
  both button code 1 and button code 2 with that same state; any other key, the quit
  key apart, is ignored: nothing is forwarded and the state is unchanged.
\<close>

theorem key_event_table:
  "key_event s Key_Left pressed =
     (None, s\<lparr>app := (app s)\<lparr>seph := seph (app s) @ [Button 1 pressed]\<rparr>\<rparr>)
   \<and> key_event s Key_Right pressed =
     (None, s\<lparr>app := (app s)\<lparr>seph := seph (app s) @ [Button 2 pressed]\<rparr>\<rparr>)
   \<and> key_event s Key_Down pressed =
     (None, s\<lparr>app := (app s)\<lparr>seph := seph (app s) @ [Button 1 pressed, Button 2 pressed]\<rparr>\<rparr>)
   \<and> (key \<notin> {Key_Left, Key_Right, Key_Down, Key_Q} \<longrightarrow> key_event s key pressed = (None, s))"
  by (simp add: key_event_def buttons_def seph_handle_button_def handle_button_def key_defs)

text \<open>The key A (code 0x41) is none of the four keys; Down is released on the
  example screen.\<close>

theorem key_event_table_witness:
  "(0x41::int) \<notin> {Key_Left, Key_Right, Key_Down, Key_Q}
   \<and> key_event example_screen 0x41 True = (None, example_screen)
   \<and> key_event example_screen Key_Down False =
       (None, example_screen\<lparr>app := example_app\<lparr>seph := [Button 1 False, Button 2 False]\<rparr>\<rparr>)"
  using key_event_table [of example_screen True "0x41"] key_event_table [of example_screen False "0x41"]
  by (simp add: key_defs example_screen_def example_app_def)

text \<open>
  C7. The quit key requests the close of the session on its release only: its press
  leaves the state as it was, its release calls \<open>close\<close> on the window once; in
  neither case is anything forwarded to the secure-element link.
\<close>

theorem quit_key_release_only:
  "key_event s Key_Q True = (None, s)
   \<and> key_event s Key_Q False =
       (None, s\<lparr>app := (app s)\<lparr>close_calls := Suc (close_calls (app s))\<rparr>\<rparr>)"
  by (simp add: key_event_def app_close_def close_app_def key_defs)

subsection \<open>Pointer events\<close>

text \<open>
  C2, as the code has it. With a pixel size other than 0, a press at the raw position
  \<open>(rawX, rawY)\<close> is translated to \<open>tx = rawX div pixel_size - (box_position_x + 1)\<close>
  and \<open>ty = rawY div pixel_size - (box_position_y + 1)\<close>; the touch command
  \<open>(tx, ty, True)\<close> is forwarded if and only if \<open>0 \<le> tx < width\<close> and
  \<open>0 \<le> ty < height\<close>, and otherwise nothing is forwarded and no error is raised.
  A release applies the same translation and the same bounds check to the position
  stored by the last press (\<open>mouse_offset\<close>), whatever its own raw position is.
\<close>

theorem pointer_translation:
  assumes "pixel_size_app a \<noteq> 0"
  shows "mousePressEvent a (rawX, rawY) =
           (let tx = rawX div pixel_size_app a - (box_position_x a + 1);
                ty = rawY div pixel_size_app a - (box_position_y a + 1)
            in (None, a\<lparr>seph := (if 0 \<le> tx \<and> tx < width a \<and> 0 \<le> ty \<and> ty < height a
                                   then seph a @ [Finger tx ty True] else seph a),
                         mouse_offset := Some (rawX, rawY),
                         override_cursors := Suc (override_cursors a)\<rparr>))
         \<and> (mouse_offset a = Some (pressX, pressY) \<longrightarrow>
              mouseReleaseEvent a (rawX, rawY) =
                (let tx = pressX div pixel_size_app a - (box_position_x a + 1);
                     ty = pressY div pixel_size_app a - (box_position_y a + 1)
                 in (None, a\<lparr>seph := (if 0 \<le> tx \<and> tx < width a \<and> 0 \<le> ty \<and> ty < height a
                                        then seph a @ [Finger tx ty False] else seph a),
                              override_cursors := override_cursors a - 1\<rparr>)))"
  using assms
  by (simp add: mousePressEvent_def mouseReleaseEvent_def get_x_y_def handle_finger_def Let_def)

text \<open>The spec's example: scale 2, offsets 3, a screen of 128 by 128. The raw
  position (8, 8) is forwarded as (0, 0); the raw position (0, 0) is dropped.\<close>

theorem pointer_translation_witness:
  "pixel_size_app example_app \<noteq> 0
   \<and> mousePressEvent example_app (8, 8) =
       (None, example_app\<lparr>seph := [Finger 0 0 True], mouse_offset := Some (8, 8),
                           override_cursors := 1\<rparr>)
   \<and> mousePressEvent example_app (0, 0) =
       (None, example_app\<lparr>mouse_offset := Some (0, 0), override_cursors := 1\<rparr>)
   \<and> mouseReleaseEvent (example_app\<lparr>mouse_offset := Some (8, 8)\<rparr>) (8, 8) =
       (None, example_app\<lparr>seph := [Finger 0 0 False], mouse_offset := Some (8, 8)\<rparr>)"
  using pointer_translation [of example_app 8 8 8 8]
        pointer_translation [of example_app 0 0 0 0]
        pointer_translation [of "example_app\<lparr>mouse_offset := Some (8, 8)\<rparr>" 8 8 8 8]
  by (simp add: example_app_def)

text \<open>
  C2 as stated fails for a release: after a press at (8, 8), a release whose own raw
  position is (0, 0), which translates to \<open>tx = -4\<close> and so would be dropped,
  is forwarded as \<open>(0, 0, False)\<close>.
\<close>

theorem release_ignores_own_position:
  "\<not> (0 \<le> (0::int) div pixel_size_app example_app - (box_position_x example_app + 1))
   \<and> seph (snd (mouseReleaseEvent (snd (mousePressEvent example_app (8, 8))) (0, 0)))
       = [Finger 0 0 True, Finger 0 0 False]"
  by (simp add: mousePressEvent_def mouseReleaseEvent_def get_x_y_def handle_finger_def example_app_def)

text \<open>
  C3, as the code has it. The release that follows a press does not depend on the
  release event's own raw position: its translated coordinates are those of the
  press, it passes the same bounds check on them, and so it is forwarded exactly
  when the press was forwarded.
\<close>

theorem release_follows_press:
  assumes "pixel_size_app a \<noteq> 0"
  shows "mouseReleaseEvent (snd (mousePressEvent a (pressX, pressY))) release_pos =
           mouseReleaseEvent (snd (mousePressEvent a (pressX, pressY))) (pressX, pressY)
         \<and> seph (snd (mouseReleaseEvent (snd (mousePressEvent a (pressX, pressY))) release_pos)) =
             (let tx = pressX div pixel_size_app a - (box_position_x a + 1);
                  ty = pressY div pixel_size_app a - (box_position_y a + 1)
              in if 0 \<le> tx \<and> tx < width a \<and> 0 \<le> ty \<and> ty < height a
                 then seph a @ [Finger tx ty True, Finger tx ty False]
                 else seph a)"
  using assms
  by (simp add: mousePressEvent_def mouseReleaseEvent_def get_x_y_def handle_finger_def Let_def)

text \<open>A press at (9, 11) and a release at (200, 7): both are forwarded as (0, 1).\<close>

theorem release_follows_press_witness:
  "pixel_size_app example_app \<noteq> 0
   \<and> seph (snd (mouseReleaseEvent (snd (mousePressEvent example_app (9, 11))) (200, 7)))
       = [Finger 0 1 True, Finger 0 1 False]"
  using release_follows_press [of example_app 9 11 "(200, 7)", THEN conjunct2]
  by (simp add: example_app_def)

text \<open>
  C3 as stated fails: a press at (300, 300) is out of bounds and is dropped; the
  release at (8, 8), whose own position translates to (0, 0) inside the screen, is
  dropped as well.
\<close>

theorem release_dropped_with_press:
  "0 \<le> (8::int) div pixel_size_app example_app - (box_position_x example_app + 1)
   \<and> (8::int) div pixel_size_app example_app - (box_position_x example_app + 1) < width example_app
   \<and> 0 \<le> (8::int) div pixel_size_app example_app - (box_position_y example_app + 1)
   \<and> (8::int) div pixel_size_app example_app - (box_position_y example_app + 1) < height example_app
   \<and> seph (snd (mouseReleaseEvent (snd (mousePressEvent example_app (300, 300))) (8, 8))) = []"
  by (simp add: mousePressEvent_def mouseReleaseEvent_def get_x_y_def handle_finger_def example_app_def)

subsection \<open>Socket notifiers: the well-formed states\<close>

text \<open>
  \<open>wf\<close> holds of a screen without notifiers and is kept by every call of
  \<open>add_notifier\<close>, \<open>enable_notifier\<close> and \<open>remove_notifier\<close> that returns
  without an exception.
\<close>

lemma wf_initial: "wf (s\<lparr>notifiers := Map.empty, socket_notifiers := []\<rparr>)"
  by (simp add: wf_def)

lemma wf_add_notifier:
  assumes "wf s" and "add_notifier s klass = (None, s')"
  shows "wf s'"
proof -
  let ?n = "\<lparr>sn_socket = fileno klass, sn_enabled = True, sn_slots = [klass]\<rparr>"
  let ?len = "length (socket_notifiers s)"
  from assms(2) have fresh: "notifiers s (fileno klass) = None"
    and objs: "socket_notifiers s' = socket_notifiers s @ [?n]"
    and dict: "notifiers s' = (notifiers s)(fileno klass \<mapsto> ?len)"
    by (auto simp: add_notifier_def Let_def split: if_splits)
  have "addr < length (socket_notifiers s') \<and> sn_socket (socket_notifiers s' ! addr) = fd"
    if "notifiers s' fd = Some addr" for fd addr
    using that assms(1) by (auto simp: objs dict wf_def nth_append split: if_splits)
  moreover have "notifiers s' (sn_socket (socket_notifiers s' ! addr)) = Some addr"
    if a: "addr < length (socket_notifiers s')" and e: "sn_enabled (socket_notifiers s' ! addr)" for addr
  proof (cases "addr < ?len")
    case True
    with e have "sn_enabled (socket_notifiers s ! addr)" by (simp add: objs nth_append)
    with assms(1) True have reg: "notifiers s (sn_socket (socket_notifiers s ! addr)) = Some addr"
      by (simp add: wf_def)
    with fresh have "sn_socket (socket_notifiers s ! addr) \<noteq> fileno klass" by auto
    with reg True show ?thesis by (simp add: objs dict nth_append)
  next
    case False
    with a have "addr = ?len" by (simp add: objs)
    then show ?thesis by (simp add: objs dict)
  qed
  ultimately show ?thesis unfolding wf_def by blast
qed

lemma wf_setEnabled:
  assumes "wf s" and "notifiers s fd = Some addr"
  shows "wf (setEnabled addr enabled s)"
proof -
  from assms have valid: "addr < length (socket_notifiers s)"
    and sock: "sn_socket (socket_notifiers s ! addr) = fd"
    by (auto simp: wf_def)
  have "sn_socket (socket_notifiers (setEnabled addr enabled s) ! b) = sn_socket (socket_notifiers s ! b)"
    if "b < length (socket_notifiers s)" for b
    using that by (cases "b = addr") (simp_all add: setEnabled_def)
  moreover have "sn_enabled (socket_notifiers (setEnabled addr enabled s) ! b) \<Longrightarrow> b \<noteq> addr
      \<Longrightarrow> sn_enabled (socket_notifiers s ! b)" for b
    by (simp add: setEnabled_def)
  moreover have "notifiers (setEnabled addr enabled s) = notifiers s"
    and "length (socket_notifiers (setEnabled addr enabled s)) = length (socket_notifiers s)"
    by (simp_all add: setEnabled_def)
  ultimately show ?thesis
    using assms sock unfolding wf_def by metis
qed

lemma wf_enable_notifier:
  assumes "wf s" and "enable_notifier s fd enabled = (None, s')"
  shows "wf s'"
  using assms wf_setEnabled by (auto simp: enable_notifier_def split: option.splits)

lemma remove_notifier_registered:
  assumes "notifiers s fd = Some addr"
  shows "remove_notifier s fd =
           (None, disconnect addr (pop_notifier fd (setEnabled addr False s)))"
  using assms by (simp add: remove_notifier_def enable_notifier_def setEnabled_def)

lemma removed_store:
  "socket_notifiers (disconnect addr (pop_notifier fd (setEnabled addr False s))) =
     (socket_notifiers s)[addr := (socket_notifiers s ! addr)\<lparr>sn_enabled := False, sn_slots := []\<rparr>]"
  by (cases "addr < length (socket_notifiers s)")
     (simp_all add: disconnect_def pop_notifier_def setEnabled_def list_update_beyond)

lemma removed_dict:
  "notifiers (disconnect addr (pop_notifier fd (setEnabled addr False s))) = (notifiers s)(fd := None)"
  by (simp add: disconnect_def pop_notifier_def setEnabled_def)

lemma removed_calls:
  "notifier_calls (disconnect addr (pop_notifier fd (setEnabled addr False s))) =
     notifier_calls s @ [Call_setEnabled addr False, Call_pop fd, Call_disconnect addr]"
  by (simp add: disconnect_def pop_notifier_def setEnabled_def)

lemma wf_remove_notifier:
  assumes "wf s" and "remove_notifier s fd = (None, s')"
  shows "wf s'"
proof -
  from assms(2) obtain addr where reg: "notifiers s fd = Some addr"
    by (auto simp: remove_notifier_def enable_notifier_def split: option.splits)
  with assms(2) have s': "s' = disconnect addr (pop_notifier fd (setEnabled addr False s))"
    by (simp add: remove_notifier_registered)
  let ?objs = "(socket_notifiers s)[addr := (socket_notifiers s ! addr)\<lparr>sn_enabled := False, sn_slots := []\<rparr>]"
  have objs: "socket_notifiers s' = ?objs" and dict: "notifiers s' = (notifiers s)(fd := None)"
    unfolding s' by (rule removed_store, rule removed_dict)
  have sock: "sn_socket (?objs ! b) = sn_socket (socket_notifiers s ! b)"
    if "b < length (socket_notifiers s)" for b
    using that by (cases "b = addr") simp_all
  have "b < length (socket_notifiers s') \<and> sn_socket (socket_notifiers s' ! b) = fd'"
    if "notifiers s' fd' = Some b" for fd' b
  proof -
    from that have "notifiers s fd' = Some b" by (auto simp: dict split: if_splits)
    with assms(1) have "b < length (socket_notifiers s)" "sn_socket (socket_notifiers s ! b) = fd'"
      by (auto simp: wf_def)
    then show ?thesis by (simp add: objs sock)
  qed
  moreover have "notifiers s' (sn_socket (socket_notifiers s' ! b)) = Some b"
    if b: "b < length (socket_notifiers s')" and e: "sn_enabled (socket_notifiers s' ! b)" for b
  proof -
    from b have b': "b < length (socket_notifiers s)" by (simp add: objs)
    from e b' have ne: "b \<noteq> addr" by (auto simp: objs)
    with e have "sn_enabled (socket_notifiers s ! b)" by (simp add: objs)
    with assms(1) b' have r: "notifiers s (sn_socket (socket_notifiers s ! b)) = Some b"
      by (simp add: wf_def)
    with reg ne have "sn_socket (socket_notifiers s ! b) \<noteq> fd" by auto
    with r b' show ?thesis by (simp add: objs dict sock)
  qed
  ultimately show ?thesis unfolding wf_def by blast
qed

lemma deliver_idle:
  assumes "\<And>b. b \<in> set addrs \<Longrightarrow> b < length (socket_notifiers s) \<Longrightarrow>
             sn_socket (socket_notifiers s ! b) = sock \<Longrightarrow> \<not> sn_enabled (socket_notifiers s ! b)"
  shows "deliver H s addrs sock = (None, s)"
  using assms by (induction addrs) (auto simp: activated_def)

lemma deliver_append:
  "deliver H s (xs @ ys) sock =
     (case deliver H s xs sock of
        (Some e, s') \<Rightarrow> (Some e, s')
      | (None, s') \<Rightarrow> deliver H s' ys sock)"
  by (induction xs arbitrary: s) (auto split: prod.splits option.splits)

lemma socket_ready_unregistered:
  assumes "wf s" and "notifiers s fd = None"
  shows "socket_ready H s fd = (None, s)"
  unfolding socket_ready_def
proof (rule deliver_idle)
  fix b
  assume "b < length (socket_notifiers s)" and "sn_socket (socket_notifiers s ! b) = fd"
  with assms show "\<not> sn_enabled (socket_notifiers s ! b)" by (auto simp: wf_def)
qed

lemma example_screen2_eq:
  "example_screen2 =
     \<lparr>app = example_app, notifiers = [3 \<mapsto> 0, 4 \<mapsto> 1],
      socket_notifiers = [\<lparr>sn_socket = 3, sn_enabled = True, sn_slots = [seph_device]\<rparr>,
                          \<lparr>sn_socket = 4, sn_enabled = True, sn_slots = [vnc_device]\<rparr>],
      notifier_calls = [Call_QSocketNotifier 0 3, Call_connect 0 seph_device, Call_store 3 0,
                        Call_QSocketNotifier 1 4, Call_connect 1 vnc_device, Call_store 4 1]\<rparr>"
  by (simp add: example_screen2_def example_screen_def add_notifier_def seph_device_def
        vnc_device_def Let_def)

lemma wf_example_screen2: "wf example_screen2"
proof -
  have "wf example_screen"
    by (simp add: wf_def example_screen_def)
  moreover have "add_notifier example_screen seph_device
                   = (None, snd (add_notifier example_screen seph_device))"
    by (simp add: add_notifier_def example_screen_def Let_def)
  ultimately have 1: "wf (snd (add_notifier example_screen seph_device))"
    by (rule wf_add_notifier)
  have "add_notifier (snd (add_notifier example_screen seph_device)) vnc_device
          = (None, example_screen2)"
    by (simp add: example_screen2_def add_notifier_def example_screen_def seph_device_def
          vnc_device_def Let_def)
  with 1 show ?thesis by (rule wf_add_notifier)
qed

lemma socket_ready_exhausted:
  assumes wf: "wf s" and reg: "notifiers s sock = Some addr"
    and en: "sn_enabled (socket_notifiers s ! addr)"
    and slots: "sn_slots (socket_notifiers s ! addr) = [klass]"
    and H: "H klass sock s = (Some ReadError, s1)"
    and same: "socket_notifiers s1 = socket_notifiers s"
  shows "socket_ready H s sock = (None, app_close s1)"
proof -
  let ?n = "length (socket_notifiers s)"
  from wf reg have valid: "addr < ?n" and sock: "sn_socket (socket_notifiers s ! addr) = sock"
    by (auto simp: wf_def)
  have only: "b = addr"
    if "b < ?n" "sn_socket (socket_notifiers s ! b) = sock" "sn_enabled (socket_notifiers s ! b)" for b
    using that wf reg by (auto simp: wf_def)
  from valid have split: "[0..<?n] = [0..<addr] @ addr # [Suc addr..<?n]"
    by (metis upt_conv_Cons upt_add_eq_append le0 less_imp_le_nat le_add_diff_inverse add_0)
  have before: "deliver H s [0..<addr] sock = (None, s)"
    by (rule deliver_idle) (use only in auto)
  have at: "activated H s addr sock = (None, app_close s1)"
    using valid sock en slots H by (simp add: activated_def klass_can_read_def)
  have after: "deliver H (app_close s1) [Suc addr..<?n] sock = (None, app_close s1)"
    by (rule deliver_idle) (use only same in \<open>auto simp: app_close_def\<close>)
  show ?thesis
    unfolding socket_ready_def split
    by (simp add: deliver_append before at after)
qed

subsection \<open>Exhaustion\<close>

text \<open>
  C4. If the handler of a device raises \<open>ReadError\<close>, \<open>klass_can_read\<close> returns
  without an exception, the handler has run once, and the window's \<open>close\<close> has
  been called exactly once more than in the state the handler left; the notifiers are
  as the handler left them (nothing is retried or repaired). This holds in every
  state of the screen, whatever else is registered. In every other case the result of
  the handler is the result of \<open>klass_can_read\<close>: any other exception leaves it
  unchanged, and nothing is closed. Seen from the event loop: in a well-formed state,
  when the socket of a registered, enabled device becomes readable and its handler
  raises \<open>ReadError\<close> without touching the notifiers, the delivery ends with one
  call of \<open>close\<close> and no exception.
\<close>

theorem exhaustion_closes_session:
  "(fst (H klass sock s) = Some ReadError \<longrightarrow>
      klass_can_read H s klass sock = (None, app_close (snd (H klass sock s)))
      \<and> close_calls (app (snd (klass_can_read H s klass sock)))
          = Suc (close_calls (app (snd (H klass sock s))))
      \<and> notifiers (snd (klass_can_read H s klass sock)) = notifiers (snd (H klass sock s))
      \<and> socket_notifiers (snd (klass_can_read H s klass sock))
          = socket_notifiers (snd (H klass sock s)))
   \<and> (fst (H klass sock s) \<noteq> Some ReadError \<longrightarrow>
        klass_can_read H s klass sock = H klass sock s)
   \<and> (wf s \<and> notifiers s sock = Some addr \<and> sn_enabled (socket_notifiers s ! addr)
        \<and> sn_slots (socket_notifiers s ! addr) = [klass]
        \<and> H klass sock s = (Some ReadError, s1) \<and> socket_notifiers s1 = socket_notifiers s \<longrightarrow>
        socket_ready H s sock = (None, app_close s1))"
proof (intro conjI impI)
  assume "fst (H klass sock s) = Some ReadError"
  then show "klass_can_read H s klass sock = (None, app_close (snd (H klass sock s)))"
    by (cases "H klass sock s") (simp add: klass_can_read_def)
  then show "close_calls (app (snd (klass_can_read H s klass sock)))
          = Suc (close_calls (app (snd (H klass sock s))))"
    and "notifiers (snd (klass_can_read H s klass sock)) = notifiers (snd (H klass sock s))"
    and "socket_notifiers (snd (klass_can_read H s klass sock))
          = socket_notifiers (snd (H klass sock s))"
    by (simp_all add: app_close_def close_app_def)
next
  assume "fst (H klass sock s) \<noteq> Some ReadError"
  then show "klass_can_read H s klass sock = H klass sock s"
    by (cases "H klass sock s") (auto simp: klass_can_read_def split: option.splits)
next
  assume "wf s \<and> notifiers s sock = Some addr \<and> sn_enabled (socket_notifiers s ! addr)
        \<and> sn_slots (socket_notifiers s ! addr) = [klass]
        \<and> H klass sock s = (Some ReadError, s1) \<and> socket_notifiers s1 = socket_notifiers s"
  then show "socket_ready H s sock = (None, app_close s1)"
    by (blast intro: socket_ready_exhausted)
qed

text \<open>The screen with two devices registered; the handler of the first raises
  \<open>ReadError\<close>, or another error.\<close>

theorem exhaustion_closes_session_witness:
  "wf example_screen2 \<and> notifiers example_screen2 3 = Some 0
   \<and> fst (exhausted seph_device 3 example_screen2) = Some ReadError
   \<and> klass_can_read exhausted example_screen2 seph_device 3 = (None, app_close example_screen2)
   \<and> close_calls (app (snd (klass_can_read exhausted example_screen2 seph_device 3))) = 1
   \<and> fst (broken seph_device 3 example_screen2) \<noteq> Some ReadError
   \<and> klass_can_read broken example_screen2 seph_device 3
       = (Some (OtherError ''connection reset''), example_screen2)
   \<and> socket_ready exhausted example_screen2 3 = (None, app_close example_screen2)"
proof -
  have e: "exhausted seph_device 3 example_screen2 = (Some ReadError, example_screen2)"
    by (simp add: exhausted_def)
  have b: "broken seph_device 3 example_screen2
             = (Some (OtherError ''connection reset''), example_screen2)"
    by (simp add: broken_def)
  have r: "notifiers example_screen2 3 = Some 0"
    and en: "sn_enabled (socket_notifiers example_screen2 ! 0)"
    and sl: "sn_slots (socket_notifiers example_screen2 ! 0) = [seph_device]"
    and c: "close_calls (app example_screen2) = 0"
    by (simp_all add: example_screen2_eq example_app_def)
  show ?thesis
    using exhaustion_closes_session [of exhausted seph_device 3 example_screen2 0 example_screen2]
          exhaustion_closes_session [of broken seph_device 3 example_screen2 0 example_screen2]
          wf_example_screen2 e b r en sl c
    by (simp add: app_close_def close_app_def)
qed

subsection \<open>Registration\<close>

text \<open>
  C5. In every state of the screen, \<open>add_notifier\<close> for a device whose descriptor
  is already in the dictionary fails with \<open>AssertionError\<close> and leaves the
  dictionary as it was. After \<open>remove_notifier\<close> for a registered descriptor the
  descriptor is no longer registered, and \<open>add_notifier\<close> for a device with that
  descriptor succeeds: the dictionary then maps the descriptor to a notifier that was
  not in the store before, enabled and connected to the device.
\<close>

theorem duplicate_registration_fails:
  "(fileno klass \<in> dom (notifiers s) \<longrightarrow>
      fst (add_notifier s klass) = Some AssertionError
      \<and> notifiers (snd (add_notifier s klass)) = notifiers s)
   \<and> (notifiers s (fileno klass) = Some addr \<longrightarrow>
        (let s1 = snd (remove_notifier s (fileno klass));
             s2 = snd (add_notifier s1 klass)
         in fst (remove_notifier s (fileno klass)) = None
            \<and> notifiers s1 (fileno klass) = None
            \<and> fst (add_notifier s1 klass) = None
            \<and> notifiers s2 (fileno klass) = Some (length (socket_notifiers s))
            \<and> length (socket_notifiers s2) = Suc (length (socket_notifiers s))
            \<and> socket_notifiers s2 ! length (socket_notifiers s)
                = \<lparr>sn_socket = fileno klass, sn_enabled = True, sn_slots = [klass]\<rparr>))"
proof (intro conjI impI)
  assume "fileno klass \<in> dom (notifiers s)"
  then show "fst (add_notifier s klass) = Some AssertionError"
    and "notifiers (snd (add_notifier s klass)) = notifiers s"
    by (auto simp: add_notifier_def Let_def)
next
  assume reg: "notifiers s (fileno klass) = Some addr"
  let ?s1 = "disconnect addr (pop_notifier (fileno klass) (setEnabled addr False s))"
  have r: "remove_notifier s (fileno klass) = (None, ?s1)"
    using reg by (rule remove_notifier_registered)
  have d: "notifiers ?s1 = (notifiers s)(fileno klass := None)"
    by (rule removed_dict)
  have l: "length (socket_notifiers ?s1) = length (socket_notifiers s)"
    by (simp add: removed_store)
  show "let s1 = snd (remove_notifier s (fileno klass));
             s2 = snd (add_notifier s1 klass)
         in fst (remove_notifier s (fileno klass)) = None
            \<and> notifiers s1 (fileno klass) = None
            \<and> fst (add_notifier s1 klass) = None
            \<and> notifiers s2 (fileno klass) = Some (length (socket_notifiers s))
            \<and> length (socket_notifiers s2) = Suc (length (socket_notifiers s))
            \<and> socket_notifiers s2 ! length (socket_notifiers s)
                = \<lparr>sn_socket = fileno klass, sn_enabled = True, sn_slots = [klass]\<rparr>"
    unfolding r Let_def snd_conv fst_conv
    using d l by (simp add: add_notifier_def Let_def nth_append)
qed

text \<open>The first device is registered on the example screen: registering it again
  fails, and after its removal it is registered anew, at the fresh address 2.\<close>

theorem duplicate_registration_fails_witness:
  "fileno seph_device \<in> dom (notifiers example_screen2)
   \<and> fst (add_notifier example_screen2 seph_device) = Some AssertionError
   \<and> notifiers example_screen2 (fileno seph_device) = Some 0
   \<and> fst (add_notifier (snd (remove_notifier example_screen2 (fileno seph_device))) seph_device) = None
   \<and> notifiers (snd (add_notifier (snd (remove_notifier example_screen2 (fileno seph_device)))
                      seph_device)) (fileno seph_device) = Some 2"
proof -
  have r: "notifiers example_screen2 (fileno seph_device) = Some 0"
    and l: "length (socket_notifiers example_screen2) = 2"
    by (simp_all add: example_screen2_eq seph_device_def)
  then have m: "fileno seph_device \<in> dom (notifiers example_screen2)" by blast
  show ?thesis
    using duplicate_registration_fails [of seph_device example_screen2 0] r l m
    by (simp add: Let_def)
qed

subsection \<open>Removal\<close>

text \<open>
  C8. For every registered descriptor of a well-formed screen, \<open>remove_notifier\<close>
  makes exactly three calls, in this order: \<open>setEnabled(False)\<close> on the notifier,
  then \<open>pop\<close> on the dictionary, then \<open>disconnect\<close> on the notifier. So readiness
  delivery is disabled first, while the entry is still registered, and only then is
  the entry detached. Once \<open>remove_notifier\<close> has returned, the descriptor is not
  registered, its notifier is disabled and has no slot, and a readiness event on
  that descriptor calls no handler: whatever the handlers would do, the delivery
  returns the state unchanged.
\<close>

theorem remove_disables_then_detaches:
  assumes "wf s" and "notifiers s fd = Some addr"
  shows "notifier_calls (snd (remove_notifier s fd)) =
           notifier_calls s @ [Call_setEnabled addr False, Call_pop fd, Call_disconnect addr]
         \<and> enable_notifier s fd False = (None, setEnabled addr False s)
         \<and> notifier_calls (setEnabled addr False s) = notifier_calls s @ [Call_setEnabled addr False]
         \<and> notifiers (setEnabled addr False s) fd = Some addr
         \<and> \<not> sn_enabled (socket_notifiers (setEnabled addr False s) ! addr)
         \<and> remove_notifier s fd =
             (None, disconnect addr (pop_notifier fd (setEnabled addr False s)))
         \<and> notifiers (snd (remove_notifier s fd)) fd = None
         \<and> \<not> sn_enabled (socket_notifiers (snd (remove_notifier s fd)) ! addr)
         \<and> sn_slots (socket_notifiers (snd (remove_notifier s fd)) ! addr) = []
         \<and> socket_ready H (snd (remove_notifier s fd)) fd = (None, snd (remove_notifier s fd))"
proof -
  from assms have valid: "addr < length (socket_notifiers s)" by (auto simp: wf_def)
  let ?s' = "disconnect addr (pop_notifier fd (setEnabled addr False s))"
  have r: "remove_notifier s fd = (None, ?s')"
    using assms(2) by (rule remove_notifier_registered)
  have 0: "notifier_calls ?s' =
             notifier_calls s @ [Call_setEnabled addr False, Call_pop fd, Call_disconnect addr]"
    by (rule removed_calls)
  have 1: "enable_notifier s fd False = (None, setEnabled addr False s)"
    using assms(2) by (simp add: enable_notifier_def)
  have first_call: "notifier_calls (setEnabled addr False s) = notifier_calls s @ [Call_setEnabled addr False]"
    by (simp add: setEnabled_def)
  have 2: "notifiers (setEnabled addr False s) fd = Some addr"
    using assms(2) by (simp add: setEnabled_def)
  have 3: "\<not> sn_enabled (socket_notifiers (setEnabled addr False s) ! addr)"
    using valid by (simp add: setEnabled_def)
  have 5: "notifiers ?s' fd = None" by (simp add: removed_dict)
  have 6: "\<not> sn_enabled (socket_notifiers ?s' ! addr)"
    and 7: "sn_slots (socket_notifiers ?s' ! addr) = []"
    using valid by (simp_all add: removed_store)
  have "wf ?s'" using assms(1) r by (rule wf_remove_notifier)
  then have 8: "socket_ready H ?s' fd = (None, ?s')"
    using 5 by (rule socket_ready_unregistered)
  show ?thesis unfolding r snd_conv using 0 1 first_call 2 3 5 6 7 8 by simp
qed

text \<open>The first device is removed from the example screen: the three calls follow
  the six of the two registrations, and its handler, which would close the session,
  is not called when descriptor 3 becomes readable.\<close>

theorem remove_disables_then_detaches_witness:
  "wf example_screen2 \<and> notifiers example_screen2 3 = Some 0
   \<and> fst (remove_notifier example_screen2 3) = None
   \<and> notifier_calls (snd (remove_notifier example_screen2 3)) =
       [Call_QSocketNotifier 0 3, Call_connect 0 seph_device, Call_store 3 0,
        Call_QSocketNotifier 1 4, Call_connect 1 vnc_device, Call_store 4 1,
        Call_setEnabled 0 False, Call_pop 3, Call_disconnect 0]
   \<and> notifiers (snd (remove_notifier example_screen2 3)) 3 = None
   \<and> socket_ready exhausted (snd (remove_notifier example_screen2 3)) 3
       = (None, snd (remove_notifier example_screen2 3))"
proof -
  have r: "notifiers example_screen2 3 = Some 0"
    and c: "notifier_calls example_screen2 =
              [Call_QSocketNotifier 0 3, Call_connect 0 seph_device, Call_store 3 0,
               Call_QSocketNotifier 1 4, Call_connect 1 vnc_device, Call_store 4 1]"
    by (simp_all add: example_screen2_eq)
  note t = remove_disables_then_detaches [OF wf_example_screen2 r, of exhausted]
  from t [THEN conjunct1]
  have a: "notifier_calls (snd (remove_notifier example_screen2 3)) =
       [Call_QSocketNotifier 0 3, Call_connect 0 seph_device, Call_store 3 0,
        Call_QSocketNotifier 1 4, Call_connect 1 vnc_device, Call_store 4 1,
        Call_setEnabled 0 False, Call_pop 3, Call_disconnect 0]"
    by (simp add: c)
  from t have b: "fst (remove_notifier example_screen2 3) = None"
    and d: "notifiers (snd (remove_notifier example_screen2 3)) 3 = None"
    and e: "socket_ready exhausted (snd (remove_notifier example_screen2 3)) 3
             = (None, snd (remove_notifier example_screen2 3))"
    by auto
  from wf_example_screen2 r b a d e show ?thesis by (intro conjI)
qed

subsection \<open>The paint widget: what a repaint leaves unchanged, and the loops\<close>

lemma redraw_frame:
  "pixel_size (snd (redraw s qp)) = pixel_size s"
  "mPixmap (snd (redraw s qp)) = mPixmap s"
  "qt_calls (snd (redraw s qp)) = qt_calls s"
  "widget_size (snd (redraw s qp)) = widget_size s"
  "vnc (snd (redraw s qp)) = map_option (\<lambda>mirror. mirror @ [pixels (fb s)]) (vnc s)"
  "pixels (fb (snd (redraw s qp))) = pixels (fb s)"
  by (simp_all add: redraw_def Let_def screenshot_update_pixels_def split: option.splits)

lemma paintEvent_flush:
  assumes "pixels (fb s) \<noteq> []"
  shows "mPixmap (paintEvent s) =
           paint_device (fst (redraw s (drawPixmap 0 0 (mPixmap s)
             (QPainter_on (fill Qt_white (QPixmap_new (qsize_div (widget_size s) (pixel_size s))))))))"
    and "fb (paintEvent s) =
           (fb (snd (redraw s (drawPixmap 0 0 (mPixmap s)
             (QPainter_on (fill Qt_white (QPixmap_new (qsize_div (widget_size s) (pixel_size s)))))))))
           \<lparr>pixels := []\<rparr>"
    and "vnc (paintEvent s) = map_option (\<lambda>mirror. mirror @ [pixels (fb s)]) (vnc s)"
  using assms
  by (simp_all add: paintEvent_def Let_def split_beta redraw_frame)

lemma paintEvent_idle:
  assumes "pixels (fb s) = []"
  shows "mPixmap (paintEvent s) = mPixmap s" and "fb (paintEvent s) = fb s"
    and "vnc (paintEvent s) = vnc s"
  using assms by (simp_all add: paintEvent_def Let_def)

lemma paintEvent_pixel_size: "pixel_size (paintEvent s) = pixel_size s"
  by (simp add: paintEvent_def Let_def split_beta redraw_frame)

lemma paintEvent_calls:
  "qt_calls (paintEvent s) =
     qt_calls s @
       (if pixel_size s \<noteq> 1
        then [Call_scaled (pm_width (mPixmap (paintEvent s)) * pixel_size s)
                          (pm_height (mPixmap (paintEvent s)) * pixel_size s),
              Call_drawPixmap 0 0
                (scaled (mPixmap (paintEvent s))
                   (pm_width (mPixmap (paintEvent s)) * pixel_size s)
                   (pm_height (mPixmap (paintEvent s)) * pixel_size s))]
        else [Call_drawPixmap 0 0 (mPixmap (paintEvent s))])"
  by (simp add: paintEvent_def Let_def split_beta redraw_frame)

lemma drawPoint_size:
  "pm_width (paint_device (drawPoint x y qp)) = pm_width (paint_device qp)"
  "pm_height (paint_device (drawPoint x y qp)) = pm_height (paint_device qp)"
  by (simp_all add: drawPoint_def)

lemma fold_points:
  "points (fold (\<lambda>((x, y), color) p. drawPoint x y (setPen (FromRgb color) p)) d qp) =
     points qp @ map (\<lambda>((x, y), color). (x, y, FromRgb color)) d"
  by (induction d arbitrary: qp) (auto simp: drawPoint_def setPen_def)

lemma setPen_device: "paint_device (setPen c qp) = paint_device qp"
  by (simp add: setPen_def)

lemma fold_size:
  "pm_width (paint_device (fold (\<lambda>((x, y), color) p. drawPoint x y (setPen (FromRgb color) p)) d qp))
     = pm_width (paint_device qp)
   \<and> pm_height (paint_device (fold (\<lambda>((x, y), color) p. drawPoint x y (setPen (FromRgb color) p)) d qp))
     = pm_height (paint_device qp)"
proof (induction d arbitrary: qp)
  case Nil
  show ?case by simp
next
  case (Cons e d)
  obtain x y c where e: "e = ((x, y), c)" by (metis surj_pair)
  show ?case
    using Cons [of "drawPoint x y (setPen (FromRgb c) qp)"]
    by (simp add: e drawPoint_size setPen_device)
qed

lemma fold_inside:
  "inside (paint_device (fold (\<lambda>((x, y), color) p. drawPoint x y (setPen (FromRgb color) p)) d qp)) p
     = inside (paint_device qp) p"
  by (simp add: inside_def fold_size)

lemma fold_pixel_other:
  assumes "p \<notin> fst ` set d"
  shows "pm_pixel (paint_device
            (fold (\<lambda>((x, y), color) p. drawPoint x y (setPen (FromRgb color) p)) d qp)) p
         = pm_pixel (paint_device qp) p"
  using assms by (induction d arbitrary: qp) (auto simp: drawPoint_def setPen_def)

lemma fold_pixel_drawn:
  assumes "dict_ok d" and "((x, y), c) \<in> set d" and "inside (paint_device qp) (x, y)"
  shows "pm_pixel (paint_device
            (fold (\<lambda>((x, y), color) p. drawPoint x y (setPen (FromRgb color) p)) d qp)) (x, y)
         = FromRgb c"
  using assms
proof (induction d arbitrary: qp)
  case Nil
  then show ?case by simp
next
  case (Cons e d)
  obtain x' y' c' where e: "e = ((x', y'), c')" by (metis surj_pair)
  let ?qp = "drawPoint x' y' (setPen (FromRgb c') qp)"
  from Cons.prems(1) have ok: "dict_ok d" and fresh: "(x', y') \<notin> fst ` set d"
    by (auto simp: dict_ok_def e)
  have ins: "inside (paint_device ?qp) (x, y)"
    using Cons.prems(3) by (simp add: drawPoint_def setPen_def inside_def)
  show ?case
  proof (cases "((x, y), c) \<in> set d")
    case True
    with Cons.IH [OF ok True ins] show ?thesis by (simp add: e)
  next
    case False
    with Cons.prems(2) have eq: "x' = x" "y' = y" "c' = c" by (auto simp: e)
    have "pm_pixel (paint_device ?qp) (x, y) = FromRgb c"
      using Cons.prems(3) by (simp add: eq drawPoint_def setPen_def)
    with fresh show ?thesis by (simp add: e eq fold_pixel_other)
  qed
qed

lemma fold_snapshot_other:
  assumes "k \<notin> fst ` set d"
  shows "fold (\<lambda>(k, c) m. m(k \<mapsto> c)) d m k = m k"
  using assms by (induction d arbitrary: m) auto

lemma fold_snapshot_in:
  assumes "dict_ok d" and "(k, c) \<in> set d"
  shows "fold (\<lambda>(k, c) m. m(k \<mapsto> c)) d m k = Some c"
  using assms
proof (induction d arbitrary: m)
  case Nil
  then show ?case by simp
next
  case (Cons e d)
  obtain k' c' where e: "e = (k', c')" by (cases e)
  from Cons.prems(1) have ok: "dict_ok d" and fresh: "k' \<notin> fst ` set d"
    by (auto simp: dict_ok_def e)
  show ?case
  proof (cases "(k, c) \<in> set d")
    case True
    with Cons.IH [OF ok] show ?thesis by (simp add: e)
  next
    case False
    with Cons.prems(2) have eq: "k' = k" "c' = c" by (auto simp: e)
    from fresh have "fold (\<lambda>(k, c) m. m(k \<mapsto> c)) d (m(k \<mapsto> c)) k = (m(k \<mapsto> c)) k"
      unfolding eq by (rule fold_snapshot_other)
    moreover have "(m(k \<mapsto> c)) k = Some c" by simp
    ultimately show ?thesis by (simp add: e eq del: fun_upd_apply)
  qed
qed

lemma redraw_painter:
  "fst (redraw s qp) =
     fold (\<lambda>((x, y), color) p. drawPoint x y (setPen (FromRgb color) p)) (pixels (fb s)) qp"
  by (simp add: redraw_def Let_def)

lemma redraw_snapshot:
  "screenshot_pixels (fb (snd (redraw s qp))) =
     fold (\<lambda>(k, c) m. m(k \<mapsto> c)) (pixels (fb s)) (screenshot_pixels (fb s))"
  by (simp add: redraw_def Let_def screenshot_update_pixels_def split: option.splits)

lemma example_widget_flush:
  "pixels (fb example_widget) \<noteq> []" "dict_ok (pixels (fb example_widget))"
  by (simp_all add: example_widget_def dict_ok_def)

subsection \<open>Flush\<close>

text \<open>
  C1. For every repaint of a widget with pending pixels (the dictionary is not empty;
  its keys are distinct, as the keys of a dictionary are): afterwards the dirty set is
  empty; every \<open>(x, y, color)\<close> of the dirty set is in the committed image
  \<open>mPixmap\<close>, wherever \<open>(x, y)\<close> lies inside it, and in the working snapshot; the
  committed image has the size of the widget divided by the pixel size and is what
  the painter of \<open>_redraw\<close> has painted; that painter receives one \<open>drawPoint\<close> for
  each entry of the dirty set, in order, nothing else; and the mirror, when there is
  one, receives the unscaled dictionary itself in exactly one \<open>redraw\<close> call.
\<close>

theorem flush_applies_and_broadcasts:
  assumes "pixels (fb s) \<noteq> []" and "dict_ok (pixels (fb s))"
  shows "pixels (fb (paintEvent s)) = []
         \<and> (\<forall>((x, y), color) \<in> set (pixels (fb s)).
               (inside (mPixmap (paintEvent s)) (x, y) \<longrightarrow>
                  pm_pixel (mPixmap (paintEvent s)) (x, y) = FromRgb color)
               \<and> screenshot_pixels (fb (paintEvent s)) (x, y) = Some color)
         \<and> (pm_width (mPixmap (paintEvent s)), pm_height (mPixmap (paintEvent s)))
             = qsize_div (widget_size s) (pixel_size s)
         \<and> mPixmap (paintEvent s) =
             paint_device (fst (redraw s (drawPixmap 0 0 (mPixmap s)
               (QPainter_on (fill Qt_white
                  (QPixmap_new (qsize_div (widget_size s) (pixel_size s))))))))
         \<and> points (fst (redraw s qp)) =
             points qp @ map (\<lambda>((x, y), color). (x, y, FromRgb color)) (pixels (fb s))
         \<and> vnc (paintEvent s) = map_option (\<lambda>mirror. mirror @ [pixels (fb s)]) (vnc s)"
proof -
  let ?qp0 = "drawPixmap 0 0 (mPixmap s)
               (QPainter_on (fill Qt_white (QPixmap_new (qsize_div (widget_size s) (pixel_size s)))))"
  let ?step = "\<lambda>((x, y), color) p. drawPoint x y (setPen (FromRgb color) p)"
  have committed: "mPixmap (paintEvent s) = paint_device (fold ?step (pixels (fb s)) ?qp0)"
    using assms(1) by (simp add: paintEvent_flush redraw_painter)
  have buffer: "fb (paintEvent s) = (fb (snd (redraw s ?qp0)))\<lparr>pixels := []\<rparr>"
    using assms(1) by (rule paintEvent_flush)
  have size0: "pm_width (paint_device ?qp0) = fst (qsize_div (widget_size s) (pixel_size s))"
    "pm_height (paint_device ?qp0) = snd (qsize_div (widget_size s) (pixel_size s))"
    by (simp_all add: drawPixmap_def QPainter_on_def fill_def QPixmap_new_def)
  have 1: "pixels (fb (paintEvent s)) = []"
    by (simp add: buffer)
  have 2: "(inside (mPixmap (paintEvent s)) (x, y) \<longrightarrow>
              pm_pixel (mPixmap (paintEvent s)) (x, y) = FromRgb color)
           \<and> screenshot_pixels (fb (paintEvent s)) (x, y) = Some color"
    if "((x, y), color) \<in> set (pixels (fb s))" for x y color
  proof
    show "inside (mPixmap (paintEvent s)) (x, y) \<longrightarrow>
            pm_pixel (mPixmap (paintEvent s)) (x, y) = FromRgb color"
      unfolding committed fold_inside
      using assms(2) that by (blast intro: fold_pixel_drawn)
    show "screenshot_pixels (fb (paintEvent s)) (x, y) = Some color"
      using assms(2) that by (simp add: buffer redraw_snapshot fold_snapshot_in)
  qed
  have 3: "(pm_width (mPixmap (paintEvent s)), pm_height (mPixmap (paintEvent s)))
             = qsize_div (widget_size s) (pixel_size s)"
    unfolding committed by (simp add: fold_size size0)
  have 4: "mPixmap (paintEvent s) = paint_device (fst (redraw s ?qp0))"
    using assms(1) by (rule paintEvent_flush)
  have 5: "points (fst (redraw s qp)) =
             points qp @ map (\<lambda>((x, y), color). (x, y, FromRgb color)) (pixels (fb s))"
    by (simp add: redraw_painter fold_points)
  have 6: "vnc (paintEvent s) = map_option (\<lambda>mirror. mirror @ [pixels (fb s)]) (vnc s)"
    using assms(1) by (rule paintEvent_flush)
  from 2 have all2: "\<forall>((x, y), color) \<in> set (pixels (fb s)).
               (inside (mPixmap (paintEvent s)) (x, y) \<longrightarrow>
                  pm_pixel (mPixmap (paintEvent s)) (x, y) = FromRgb color)
               \<and> screenshot_pixels (fb (paintEvent s)) (x, y) = Some color"
    by blast
  from 1 all2 3 4 5 6 show ?thesis by (intro conjI)
qed

text \<open>The example widget: two pending pixels, flushed into a pixmap of 2 by 2.\<close>

theorem flush_applies_and_broadcasts_witness:
  "pixels (fb example_widget) \<noteq> [] \<and> dict_ok (pixels (fb example_widget))
   \<and> pixels (fb (paintEvent example_widget)) = []
   \<and> inside (mPixmap (paintEvent example_widget)) (1, 0)
   \<and> pm_pixel (mPixmap (paintEvent example_widget)) (1, 0) = FromRgb 0
   \<and> screenshot_pixels (fb (paintEvent example_widget)) (1, 0) = Some 0
   \<and> points (fst (redraw example_widget (QPainter_on QPixmap_null)))
       = [(0, 0, FromRgb 0xFFFFFF), (1, 0, FromRgb 0)]
   \<and> vnc (paintEvent example_widget) = Some [[((0, 0), 0xFFFFFF), ((1, 0), 0)]]"
proof -
  note t = flush_applies_and_broadcasts [OF example_widget_flush, of "QPainter_on QPixmap_null"]
  note t1 = t [THEN conjunct1]
  note t2 = t [THEN conjunct2, THEN conjunct1]
  note t3 = t [THEN conjunct2, THEN conjunct2, THEN conjunct1]
  note t5 = t [THEN conjunct2, THEN conjunct2, THEN conjunct2, THEN conjunct2, THEN conjunct1]
  note t6 = t [THEN conjunct2, THEN conjunct2, THEN conjunct2, THEN conjunct2, THEN conjunct2]
  have px: "pixels (fb example_widget) = [((0, 0), 0xFFFFFF), ((1, 0), 0)]"
    and v: "vnc example_widget = Some []"
    and sz: "qsize_div (widget_size example_widget) (pixel_size example_widget) = (2, 2)"
    by (simp_all add: example_widget_def qsize_div_def)
  from t3 have "pm_width (mPixmap (paintEvent example_widget)) = 2"
    "pm_height (mPixmap (paintEvent example_widget)) = 2"
    by (simp_all add: sz)
  then have ins: "inside (mPixmap (paintEvent example_widget)) (1, 0)"
    by (simp add: inside_def)
  from t2 have "(inside (mPixmap (paintEvent example_widget)) (1, 0) \<longrightarrow>
                  pm_pixel (mPixmap (paintEvent example_widget)) (1, 0) = FromRgb 0)
               \<and> screenshot_pixels (fb (paintEvent example_widget)) (1, 0) = Some 0"
    by (simp add: px)
  with ins have a: "pm_pixel (mPixmap (paintEvent example_widget)) (1, 0) = FromRgb 0"
    and b: "screenshot_pixels (fb (paintEvent example_widget)) (1, 0) = Some 0"
    by simp_all
  from t5 have d: "points (fst (redraw example_widget (QPainter_on QPixmap_null)))
             = [(0, 0, FromRgb 0xFFFFFF), (1, 0, FromRgb 0)]"
    by (simp add: px QPainter_on_def)
  from t6 have e: "vnc (paintEvent example_widget) = Some [[((0, 0), 0xFFFFFF), ((1, 0), 0)]]"
    by (simp add: px v)
  from example_widget_flush t1 ins a b d e show ?thesis by (intro conjI)
qed

subsection \<open>Scaling\<close>

text \<open>
  C9. On every repaint the widget calls \<open>scaled\<close> on its pixmap if and only if the
  pixel size is not 1, and then draws the scaled copy; when the pixel size is 1 the
  only call is \<open>drawPixmap\<close> with the committed pixmap itself.
\<close>

theorem scaled_only_when_magnified:
  "qt_calls (paintEvent s) =
     qt_calls s @
       (if pixel_size s \<noteq> 1
        then [Call_scaled (pm_width (mPixmap (paintEvent s)) * pixel_size s)
                          (pm_height (mPixmap (paintEvent s)) * pixel_size s),
              Call_drawPixmap 0 0
                (scaled (mPixmap (paintEvent s))
                   (pm_width (mPixmap (paintEvent s)) * pixel_size s)
                   (pm_height (mPixmap (paintEvent s)) * pixel_size s))]
        else [Call_drawPixmap 0 0 (mPixmap (paintEvent s))])
   \<and> ((\<exists>w h. Call_scaled w h \<in> set (drop (length (qt_calls s)) (qt_calls (paintEvent s))))
        \<longleftrightarrow> pixel_size s \<noteq> 1)"
proof
  show calls: "qt_calls (paintEvent s) =
     qt_calls s @
       (if pixel_size s \<noteq> 1
        then [Call_scaled (pm_width (mPixmap (paintEvent s)) * pixel_size s)
                          (pm_height (mPixmap (paintEvent s)) * pixel_size s),
              Call_drawPixmap 0 0
                (scaled (mPixmap (paintEvent s))
                   (pm_width (mPixmap (paintEvent s)) * pixel_size s)
                   (pm_height (mPixmap (paintEvent s)) * pixel_size s))]
        else [Call_drawPixmap 0 0 (mPixmap (paintEvent s))])"
    by (rule paintEvent_calls)
  show "(\<exists>w h. Call_scaled w h \<in> set (drop (length (qt_calls s)) (qt_calls (paintEvent s))))
        \<longleftrightarrow> pixel_size s \<noteq> 1"
    by (subst calls) auto
qed

subsection \<open>Repaint requests\<close>

text \<open>
  C10. \<open>update(x, y, w, h)\<close> requests the repaint of the rectangle when all four
  arguments are given and none is 0; when any of them is 0 or omitted it requests the
  repaint of the whole widget, so a rectangle whose origin is on row 0 or column 0 is
  never requested on its own. Either way it returns whether the dirty set is
  non-empty at the time of the call.
\<close>

theorem update_requests_repaint:
  "fst (update s x y w h) = (pixels (fb s) \<noteq> [])
   \<and> (x = Some xv \<and> y = Some yv \<and> w = Some wv \<and> h = Some hv
        \<and> xv \<noteq> 0 \<and> yv \<noteq> 0 \<and> wv \<noteq> 0 \<and> hv \<noteq> 0 \<longrightarrow>
        snd (update s x y w h) = s\<lparr>qt_calls := qt_calls s @ [Call_update_rect xv yv wv hv]\<rparr>)
   \<and> (x \<in> {None, Some 0} \<or> y \<in> {None, Some 0} \<or> w \<in> {None, Some 0} \<or> h \<in> {None, Some 0} \<longrightarrow>
        snd (update s x y w h) = s\<lparr>qt_calls := qt_calls s @ [Call_update]\<rparr>)"
  by (auto simp: update_def truthy_def Let_def split: option.splits)

text \<open>A rectangle at (3, 1), a rectangle at column 0, and a call with one argument
  on a widget with nothing pending.\<close>

theorem update_requests_repaint_witness:
  "update example_widget (Some 3) (Some 1) (Some 4) (Some 2)
     = (True, example_widget\<lparr>qt_calls := [Call_update_rect 3 1 4 2]\<rparr>)
   \<and> Some 0 \<in> {None, Some (0::int)}
   \<and> update example_widget (Some 0) (Some 1) (Some 4) (Some 2)
     = (True, example_widget\<lparr>qt_calls := [Call_update]\<rparr>)
   \<and> update (example_widget\<lparr>fb := (fb example_widget)\<lparr>pixels := []\<rparr>\<rparr>) (Some 5) None None None
     = (False, example_widget\<lparr>fb := (fb example_widget)\<lparr>pixels := []\<rparr>, qt_calls := [Call_update]\<rparr>)"
proof -
  have q: "qt_calls example_widget = []" and p: "pixels (fb example_widget) \<noteq> []"
    by (simp_all add: example_widget_def)
  show ?thesis
    using update_requests_repaint [of example_widget "Some 3" "Some 1" "Some 4" "Some 2" 3 1 4 2]
          update_requests_repaint [of example_widget "Some 0" "Some 1" "Some 4" "Some 2" 0 1 4 2]
          update_requests_repaint [of "example_widget\<lparr>fb := (fb example_widget)\<lparr>pixels := []\<rparr>\<rparr>"
            "Some 5" None None None 5 0 0 0]
          q p
    by (simp add: prod_eq_iff)
qed

end
